theory Spec2Isabelle
  imports Main "HOL-Library.Word"
begin

section \<open>Volshell: a shallow embedding of \<open>volatility/cli/volshell/shellplugin.py\<close>\<close>

text \<open>
  The plugin class \<open>Volshell\<close> offers the commands of an interactive memory shell:
  hex dumps at four element widths, disassembly, switching the current layer and
  listing the members of a structured object.  Every method that prints is modelled
  as a function returning the printed lines (without the final newline) or the
  exception it raises.
\<close>

subsection \<open>Bytes, exceptions and Python helpers\<close>

type_synonym byte = "8 word"
type_synonym bytes = "byte list"

text \<open>The exceptions that can leave the modelled methods.\<close>

datatype error =
    StructError      \<comment> \<open>\<open>struct.error\<close>: buffer of the wrong size for \<open>unpack\<close>\<close>
  | BinasciiError    \<comment> \<open>\<open>binascii.Error\<close>: odd length or non-hexadecimal digit\<close>
  | LayerNotFound    \<comment> \<open>the lookup \<open>context.layers[name]\<close> fails\<close>
  | ReadError        \<comment> \<open>raised by the layer's own \<open>read\<close>\<close>
  | KeyError         \<comment> \<open>\<open>disasm_types[architecture]\<close> with an unknown key\<close>
  | AttributeError   \<comment> \<open>\<open>_current_layer\<close> read before \<open>run\<close> has set it\<close>

text \<open>\<open>sep.join(parts)\<close>.\<close>

fun join :: "string \<Rightarrow> string list \<Rightarrow> string" where
  "join sep [] = []"
| "join sep [x] = x"
| "join sep (x # y # ys) = x @ sep @ join sep (y # ys)"

text \<open>\<open>print(a, b, ...)\<close> writes its arguments separated by single spaces.\<close>

definition print_args :: "string list \<Rightarrow> string" where
  "print_args args = join '' '' args"

text \<open>One lowercase hexadecimal digit, and the digits of a natural number without
  leading zeros (\<open>0\<close> is the single digit \<open>0\<close>).\<close>

definition hexdigit :: "nat \<Rightarrow> char" where
  "hexdigit d = (if d < 10 then char_of (48 + d) else char_of (87 + d))"

fun hex_digits :: "nat \<Rightarrow> string" where
  "hex_digits n = (if n < 16 then [hexdigit n]
                   else hex_digits (n div 16) @ [hexdigit (n mod 16)])"

declare hex_digits.simps [simp del]

text \<open>Python's \<open>hex(i)\<close> on an unbounded integer.\<close>

definition hex :: "int \<Rightarrow> string" where
  "hex i = (if i < 0 then ''-0x'' @ hex_digits (nat (- i)) else ''0x'' @ hex_digits (nat i))"

text \<open>\<open>("{:0" + str(width) + "x}").format(v)\<close> for a non-negative \<open>v\<close>: the digits of
  \<open>v\<close>, filled with zeros on the left up to \<open>width\<close> characters, never cut.\<close>

definition format_0x :: "nat \<Rightarrow> nat \<Rightarrow> string" where
  "format_0x width v =
     (let ds = hex_digits v in replicate (width - length ds) CHR ''0'' @ ds)"

text \<open>The value of one hexadecimal digit as \<open>binascii.unhexlify\<close> reads it (both
  cases of the letters are accepted).\<close>

definition hex_val :: "char \<Rightarrow> nat option" where
  "hex_val c =
     (let n = (of_char c :: nat) in
      if 48 \<le> n \<and> n \<le> 57 then Some (n - 48)
      else if 97 \<le> n \<and> n \<le> 102 then Some (n - 87)
      else if 65 \<le> n \<and> n \<le> 70 then Some (n - 55)
      else None)"

text \<open>\<open>binascii.unhexlify\<close>: two digits per byte, an exception on an odd length or on
  a character that is not a hexadecimal digit.\<close>

fun unhexlify :: "string \<Rightarrow> error + bytes" where
  "unhexlify [] = Inr []"
| "unhexlify [c] = Inl BinasciiError"
| "unhexlify (a # b # rest) =
     (case hex_val a of
        None \<Rightarrow> Inl BinasciiError
      | Some h \<Rightarrow>
          (case hex_val b of
             None \<Rightarrow> Inl BinasciiError
           | Some l \<Rightarrow>
               (case unhexlify rest of
                  Inl e \<Rightarrow> Inl e
                | Inr bs \<Rightarrow> Inr (of_nat (16 * h + l) # bs))))"

subsection \<open>\<open>struct\<close>: the four formats the display commands use\<close>

text \<open>
  \<open>_display_data\<close> receives a format string; the four callers pass \<open>"B"\<close> (the
  default), \<open>"H"\<close>, \<open>"I"\<close> and \<open>"Q"\<close>, the unsigned integers of 1, 2, 4 and 8 bytes in
  the host's native byte order.  The host's byte order (\<open>sys.byteorder\<close>) is a
  parameter of the model.
\<close>

datatype format_string = Fmt_B | Fmt_H | Fmt_I | Fmt_Q

datatype byteorder = Little | Big

fun calcsize :: "format_string \<Rightarrow> nat" where
  "calcsize Fmt_B = 1"
| "calcsize Fmt_H = 2"
| "calcsize Fmt_I = 4"
| "calcsize Fmt_Q = 8"

fun from_bytes :: "byteorder \<Rightarrow> bytes \<Rightarrow> nat" where
  "from_bytes Little bs = foldr (\<lambda>b acc. unat b + 256 * acc) bs 0"
| "from_bytes Big bs = foldl (\<lambda>acc b. 256 * acc + unat b) 0 bs"

text \<open>\<open>struct.unpack(format_string, x)[0]\<close>: the buffer must have exactly the size of
  the format.\<close>

definition unpack :: "byteorder \<Rightarrow> format_string \<Rightarrow> bytes \<Rightarrow> error + nat" where
  "unpack bo fmt x =
     (if length x \<noteq> calcsize fmt then Inl StructError else Inr (from_bytes bo x))"

text \<open>A list comprehension whose body may raise: the first exception wins.\<close>

fun map_result :: "('a \<Rightarrow> error + 'b) \<Rightarrow> 'a list \<Rightarrow> error + 'b list" where
  "map_result f [] = Inr []"
| "map_result f (x # xs) =
     (case f x of
        Inl e \<Rightarrow> Inl e
      | Inr y \<Rightarrow> (case map_result f xs of Inl e \<Rightarrow> Inl e | Inr ys \<Rightarrow> Inr (y # ys)))"

subsection \<open>\<open>_ascii_bytes\<close>\<close>

text \<open>\<open>chr(x) if 32 < x < 127 else '.'\<close> for one byte.\<close>

definition ascii_char :: "byte \<Rightarrow> char" where
  "ascii_char x = (if 32 < unat x \<and> unat x < 127 then char_of (unat x) else CHR ''.'')"

definition ascii_bytes :: "string \<Rightarrow> error + string" where
  "ascii_bytes hexstr =
     (case unhexlify hexstr of Inl e \<Rightarrow> Inl e | Inr bs \<Rightarrow> Inr (map ascii_char bs))"

subsection \<open>\<open>_display_data\<close>\<close>

text \<open>The local variables of one pass through the loop body, and the line it prints.\<close>

record row =
  address :: int
  current_line :: bytes
  data_blocks :: "bytes list"
  valid_data :: "string list"
  padding_data :: "string list"
  hex_data :: string
  ascii_data :: string

definition print_row :: "row \<Rightarrow> string" where
  "print_row r = print_args [hex (address r), ''  '', hex_data r, ''  '', ascii_data r]"

text \<open>The loop body: \<open>offset\<close> is the running offset on entry and \<open>line\<close> the (at most
  16) bytes taken from the front of the remaining data.\<close>

definition make_row ::
  "byteorder \<Rightarrow> format_string \<Rightarrow> bool \<Rightarrow> int \<Rightarrow> bytes \<Rightarrow> error + row" where
  "make_row bo fmt ascii offset line =
     (let chunk_size = calcsize fmt;
          offset' = offset + 16;
          blocks = map (\<lambda>i. take chunk_size (drop (chunk_size * i) line))
                       [0 ..< 16 div chunk_size];
          blocks' = filter (\<lambda>x. x \<noteq> []) blocks
      in case map_result (\<lambda>x. case unpack bo fmt x of
                                 Inl e \<Rightarrow> Inl e
                               | Inr v \<Rightarrow> Inr (format_0x (2 * chunk_size) v)) blocks' of
           Inl e \<Rightarrow> Inl e
         | Inr valid \<Rightarrow>
            (let padding = map (\<lambda>_. replicate (2 * chunk_size) CHR '' '')
                               [0 ..< (16 - length line) div chunk_size];
                 hex_d = join '' '' (valid @ padding)
             in if ascii then
                  (let connector = (if chunk_size < 2 then '''' else '' '')
                   in case map_result ascii_bytes valid of
                        Inl e \<Rightarrow> Inl e
                      | Inr parts \<Rightarrow>
                          Inr \<lparr>address = offset', current_line = line, data_blocks = blocks',
                               valid_data = valid, padding_data = padding, hex_data = hex_d,
                               ascii_data = join connector parts\<rparr>)
                else
                  Inr \<lparr>address = offset', current_line = line, data_blocks = blocks',
                       valid_data = valid, padding_data = padding, hex_data = hex_d,
                       ascii_data = ''''\<rparr>))"

text \<open>The \<open>while remaining_data:\<close> loop.\<close>

function display_loop ::
  "byteorder \<Rightarrow> format_string \<Rightarrow> bool \<Rightarrow> int \<Rightarrow> bytes \<Rightarrow> error + row list" where
  "display_loop bo fmt ascii offset [] = Inr []"
| "display_loop bo fmt ascii offset (b # bs) =
     (case make_row bo fmt ascii offset (take 16 (b # bs)) of
        Inl e \<Rightarrow> Inl e
      | Inr r \<Rightarrow>
          (case display_loop bo fmt ascii (offset + 16) (drop 16 (b # bs)) of
             Inl e \<Rightarrow> Inl e
           | Inr rs \<Rightarrow> Inr (r # rs)))"
  by pat_completeness auto
termination
  by (relation "measure (\<lambda>(bo, fmt, ascii, offset, xs). length xs)") auto

text \<open>The rows of \<open>_display_data(offset, remaining_data, format_string, ascii)\<close>, and
  the lines it prints.\<close>

definition display_rows ::
  "byteorder \<Rightarrow> int \<Rightarrow> bytes \<Rightarrow> format_string \<Rightarrow> bool \<Rightarrow> error + row list" where
  "display_rows bo offset remaining_data fmt ascii =
     (let chunk_size = calcsize fmt;
          data_length = length remaining_data
      in display_loop bo fmt ascii offset
           (take (data_length - data_length mod chunk_size) remaining_data))"

definition display_data ::
  "byteorder \<Rightarrow> int \<Rightarrow> bytes \<Rightarrow> format_string \<Rightarrow> bool \<Rightarrow> error + string list" where
  "display_data bo offset remaining_data fmt ascii =
     (case display_rows bo offset remaining_data fmt ascii of
        Inl e \<Rightarrow> Inl e
      | Inr rows \<Rightarrow> Inr (map print_row rows))"

subsection \<open>Layers, the plugin object and \<open>_read_data\<close>\<close>

text \<open>
  The layer classes live outside this file; \<open>disassemble\<close> only asks whether a layer
  is an instance of \<open>intel.Intel32e\<close> or of \<open>intel.Intel\<close> (of which \<open>Intel32e\<close> is a
  subclass).  \<open>Intel\<close> below stands for every instance of \<open>intel.Intel\<close> that is not
  an \<open>Intel32e\<close>, \<open>Other_layer\<close> for every other layer.
\<close>

datatype layer_class = Intel32e | Intel | Other_layer

definition isinstance_Intel32e :: "layer_class \<Rightarrow> bool" where
  "isinstance_Intel32e c = (c = Intel32e)"

definition isinstance_Intel :: "layer_class \<Rightarrow> bool" where
  "isinstance_Intel c = (c = Intel32e \<or> c = Intel)"

record layer =
  class_of :: layer_class
  read :: "int \<Rightarrow> int \<Rightarrow> error + bytes"

text \<open>
  The state of the plugin object the methods use: \<open>config['primary']\<close>,
  \<open>context.layers\<close>, the attribute \<open>_current_layer\<close> (\<open>None\<close> while \<open>run\<close> has not
  assigned it: \<open>__init__\<close> assigns the name-mangled \<open>__current_layer\<close>, another
  attribute) and the prompt \<open>sys.ps1\<close>.
\<close>

record volshell =
  primary :: string
  layers :: "string \<rightharpoonup> layer"
  current_layer_attr :: "string option"
  ps1 :: string

text \<open>The property \<open>current_layer\<close>.\<close>

definition current_layer :: "volshell \<Rightarrow> error + string" where
  "current_layer s =
     (case current_layer_attr s of None \<Rightarrow> Inl AttributeError | Some n \<Rightarrow> Inr n)"

text \<open>The start of \<open>run\<close>, before the interactive loop.\<close>

definition run :: "volshell \<Rightarrow> volshell" where
  "run s = s\<lparr>current_layer_attr := Some (primary s),
             ps1 := ''('' @ primary s @ '') >>> ''\<rparr>"

text \<open>\<open>layer_name or self.current_layer\<close>: \<open>None\<close> and the empty string are falsy.\<close>

definition layer_name_or_current :: "volshell \<Rightarrow> string option \<Rightarrow> error + string" where
  "layer_name_or_current s layer_name =
     (case layer_name of
        None \<Rightarrow> current_layer s
      | Some n \<Rightarrow> (if n \<noteq> [] then Inr n else current_layer s))"

text \<open>\<open>self.context.layers[layer_name or self.current_layer]\<close>.\<close>

definition lookup_layer :: "volshell \<Rightarrow> string option \<Rightarrow> error + layer" where
  "lookup_layer s layer_name =
     (case layer_name_or_current s layer_name of
        Inl e \<Rightarrow> Inl e
      | Inr n \<Rightarrow> (case layers s n of None \<Rightarrow> Inl LayerNotFound | Some l \<Rightarrow> Inr l))"

definition read_data :: "volshell \<Rightarrow> int \<Rightarrow> int \<Rightarrow> string option \<Rightarrow> error + bytes" where
  "read_data s offset count layer_name =
     (case lookup_layer s layer_name of
        Inl e \<Rightarrow> Inl e
      | Inr l \<Rightarrow> read l offset count)"

subsection \<open>\<open>change_layer\<close>\<close>

definition change_layer :: "volshell \<Rightarrow> string option \<Rightarrow> volshell" where
  "change_layer s layer_name =
     (let layer_name' = (case layer_name of
                           None \<Rightarrow> primary s
                         | Some n \<Rightarrow> (if n = [] then primary s else n))
      in s\<lparr>current_layer_attr := Some layer_name',
           ps1 := ''('' @ layer_name' @ '') >>> ''\<rparr>)"

subsection \<open>The four display commands\<close>

definition display_with ::
  "format_string \<Rightarrow> byteorder \<Rightarrow> volshell \<Rightarrow> int \<Rightarrow> int \<Rightarrow> string option
     \<Rightarrow> error + string list" where
  "display_with fmt bo s offset count layer_name =
     (case read_data s offset count layer_name of
        Inl e \<Rightarrow> Inl e
      | Inr remaining_data \<Rightarrow> display_data bo offset remaining_data fmt True)"

definition display_bytes ::
  "byteorder \<Rightarrow> volshell \<Rightarrow> int \<Rightarrow> int \<Rightarrow> string option \<Rightarrow> error + string list" where
  "display_bytes = display_with Fmt_B"

definition display_quadwords ::
  "byteorder \<Rightarrow> volshell \<Rightarrow> int \<Rightarrow> int \<Rightarrow> string option \<Rightarrow> error + string list" where
  "display_quadwords = display_with Fmt_Q"

definition display_doublewords ::
  "byteorder \<Rightarrow> volshell \<Rightarrow> int \<Rightarrow> int \<Rightarrow> string option \<Rightarrow> error + string list" where
  "display_doublewords = display_with Fmt_I"

definition display_words ::
  "byteorder \<Rightarrow> volshell \<Rightarrow> int \<Rightarrow> int \<Rightarrow> string option \<Rightarrow> error + string list" where
  "display_words = display_with Fmt_H"

subsection \<open>\<open>disassemble\<close>\<close>

text \<open>
  The capstone library is not part of this file.  Its presence is the parameter
  \<open>cs\<close> of \<open>disassemble\<close>: \<open>None\<close> when the import failed (\<open>has_capstone = False\<close>),
  otherwise the decoder \<open>Cs(arch, mode).disasm(data, offset)\<close>.
\<close>

datatype cs_arch = CS_ARCH_X86 | CS_ARCH_ARM | CS_ARCH_ARM64

datatype cs_mode = CS_MODE_32 | CS_MODE_64 | CS_MODE_ARM

record insn =
  insn_address :: nat
  mnemonic :: string
  op_str :: string

type_synonym capstone = "cs_arch \<Rightarrow> cs_mode \<Rightarrow> bytes \<Rightarrow> int \<Rightarrow> insn list"

definition capstone_notice :: string where
  "capstone_notice =
     ''Capstone not available - please install it to use the disassemble command''"

text \<open>The dictionary \<open>disasm_types\<close>, as the pair of constants each decoder is built
  from.\<close>

definition disasm_types :: "string \<rightharpoonup> cs_arch \<times> cs_mode" where
  "disasm_types =
     [''intel'' \<mapsto> (CS_ARCH_X86, CS_MODE_32),
      ''intel64'' \<mapsto> (CS_ARCH_X86, CS_MODE_64),
      ''arm'' \<mapsto> (CS_ARCH_ARM, CS_MODE_ARM),
      ''arm64'' \<mapsto> (CS_ARCH_ARM64, CS_MODE_ARM)]"

text \<open>\<open>"0x%x:\t%s\t%s" % (i.address, i.mnemonic, i.op_str)\<close>.\<close>

definition print_insn :: "insn \<Rightarrow> string" where
  "print_insn i =
     ''0x'' @ hex_digits (insn_address i) @ [CHR '':'', CHR 0x09] @ mnemonic i
       @ [CHR 0x09] @ op_str i"

definition disassemble ::
  "capstone option \<Rightarrow> volshell \<Rightarrow> int \<Rightarrow> int \<Rightarrow> string option \<Rightarrow> string option
     \<Rightarrow> error + string list" where
  "disassemble cs s offset count layer_name architecture =
     (case read_data s offset count layer_name of
        Inl e \<Rightarrow> Inl e
      | Inr remaining_data \<Rightarrow>
          (case cs of
             None \<Rightarrow> Inr [capstone_notice]
           | Some disasm \<Rightarrow>
               (case lookup_layer s layer_name of
                  Inl e \<Rightarrow> Inl e
                | Inr l \<Rightarrow>
                    (let architecture' =
                           (if isinstance_Intel32e (class_of l) then Some ''intel64''
                            else if isinstance_Intel (class_of l) then Some ''intel''
                            else architecture)
                     in case architecture' of
                          None \<Rightarrow> Inr []
                        | Some a \<Rightarrow>
                            (case disasm_types a of
                               None \<Rightarrow> Inl KeyError
                             | Some (arch, mode) \<Rightarrow>
                                 Inr (map print_insn
                                        (disasm arch mode remaining_data offset)))))))"

subsection \<open>\<open>display_type\<close>\<close>

text \<open>
  \<open>object.vol.members\<close> is a dictionary from member name to the pair of relative
  offset and member type, of which only \<open>vol.type_name\<close> is used.  Both loops walk
  the keys in the dictionary's order and look each key up again, which yields that
  key's own entry: the model walks the entries.
\<close>

type_synonym members = "(string \<times> int \<times> string) list"

definition longest :: "members \<Rightarrow> nat \<times> nat" where
  "longest ms =
     fold (\<lambda>(member, relative_offset, type_name) (longest_member, longest_offset).
             (max (length member) longest_member,
              max (length (hex relative_offset)) longest_offset))
          ms (0, 0)"

definition display_type :: "members \<Rightarrow> string list" where
  "display_type ms =
     (let (longest_member, longest_offset) = longest ms
      in map (\<lambda>(member, relative_offset, type_name).
                print_args
                  [replicate (longest_offset - length (hex relative_offset)) CHR '' '',
                   hex relative_offset,
                   [CHR 0x09, CHR 0x09],
                   member,
                   replicate (longest_member - length member) CHR '' '',
                   [CHR 0x09, CHR 0x09],
                   type_name]) ms)"

subsection \<open>A session: commands run one after the other\<close>

text \<open>
  The interactive console runs one command at a time on the same plugin object and
  survives a command's exception.  Only \<open>change_layer\<close> assigns to the object.
\<close>

datatype command =
    Display_bytes int int "string option"
  | Display_words int int "string option"
  | Display_doublewords int int "string option"
  | Display_quadwords int int "string option"
  | Disassemble int int "string option" "string option"
  | Change_layer "string option"
  | Display_type members

fun is_change_layer :: "command \<Rightarrow> bool" where
  "is_change_layer (Change_layer n) = True"
| "is_change_layer c = False"

fun exec ::
  "byteorder \<Rightarrow> capstone option \<Rightarrow> volshell \<Rightarrow> command \<Rightarrow> volshell \<times> (error + string list)"
  where
  "exec bo cs s (Display_bytes offset count ln) = (s, display_bytes bo s offset count ln)"
| "exec bo cs s (Display_words offset count ln) = (s, display_words bo s offset count ln)"
| "exec bo cs s (Display_doublewords offset count ln) =
     (s, display_doublewords bo s offset count ln)"
| "exec bo cs s (Display_quadwords offset count ln) =
     (s, display_quadwords bo s offset count ln)"
| "exec bo cs s (Disassemble offset count ln arch) =
     (s, disassemble cs s offset count ln arch)"
| "exec bo cs s (Change_layer ln) = (change_layer s ln, Inr [])"
| "exec bo cs s (Display_type ms) = (s, Inr (display_type ms))"

fun session :: "byteorder \<Rightarrow> capstone option \<Rightarrow> volshell \<Rightarrow> command list \<Rightarrow> volshell" where
  "session bo cs s [] = s"
| "session bo cs s (c # cmds) = session bo cs (fst (exec bo cs s c)) cmds"

subsection \<open>Reference renderings used in the proofs\<close>

text \<open>Two digits per byte, the bytes in the order given; and the \<open>k\<close> lowest
  hexadecimal digits of a number.\<close>

definition hex2 :: "byte \<Rightarrow> string" where
  "hex2 b = [hexdigit (unat b div 16), hexdigit (unat b mod 16)]"

definition hexlify :: "bytes \<Rightarrow> string" where
  "hexlify bs = concat (map hex2 bs)"

fun hex_fixed :: "nat \<Rightarrow> nat \<Rightarrow> string" where
  "hex_fixed 0 n = []"
| "hex_fixed (Suc k) n = hex_fixed k (n div 16) @ [hexdigit (n mod 16)]"

text \<open>The order in which the bytes of a cell appear in its hexadecimal rendering:
  most significant first.\<close>

fun display_order :: "byteorder \<Rightarrow> bytes \<Rightarrow> bytes" where
  "display_order Little bs = rev bs"
| "display_order Big bs = bs"

text \<open>The blocks of a line whose length is a multiple of the element width, the row
  the loop body builds from such a line, and the rows of a whole buffer: closed forms
  that the loop is proved equal to below.\<close>

definition blocks_of :: "nat \<Rightarrow> bytes \<Rightarrow> bytes list" where
  "blocks_of w line = map (\<lambda>i. take w (drop (w * i) line)) [0 ..< length line div w]"

definition row_of :: "byteorder \<Rightarrow> format_string \<Rightarrow> bool \<Rightarrow> int \<Rightarrow> bytes \<Rightarrow> row" where
  "row_of bo fmt ascii offset line =
     (let w = calcsize fmt;
          valid = map (\<lambda>x. hexlify (display_order bo x)) (blocks_of w line);
          padding = replicate ((16 - length line) div w) (replicate (2 * w) CHR '' '')
      in \<lparr>address = offset + 16, current_line = line, data_blocks = blocks_of w line,
          valid_data = valid, padding_data = padding,
          hex_data = join '' '' (valid @ padding),
          ascii_data =
            (if ascii
             then join (if w < 2 then '''' else '' '')
                    (map (\<lambda>x. map ascii_char (display_order bo x)) (blocks_of w line))
             else '''')\<rparr>)"

definition rows_of :: "byteorder \<Rightarrow> format_string \<Rightarrow> bool \<Rightarrow> int \<Rightarrow> bytes \<Rightarrow> row list" where
  "rows_of bo fmt ascii offset data =
     map (\<lambda>i. row_of bo fmt ascii (offset + 16 * int i) (take 16 (drop (16 * i) data)))
         [0 ..< (length data + 15) div 16]"

subsection \<open>The specification's wording, and example inputs\<close>

text \<open>The specification calls a byte printable when it lies strictly between \<open>0x20\<close>
  and \<open>0x7E\<close>.\<close>

definition spec_printable :: "byte \<Rightarrow> bool" where
  "spec_printable b = (0x20 < unat b \<and> unat b < 0x7E)"

text \<open>A string padded on its right with spaces up to a width.\<close>

definition right_padded :: "nat \<Rightarrow> string \<Rightarrow> string" where
  "right_padded n s = s @ replicate (n - length s) CHR '' ''"

text \<open>The buffer of the specification's example, \<open>b'\x41\x00\x00\x00' * 4\<close>.\<close>

definition example_data :: bytes where
  "example_data =
     [0x41, 0x00, 0x00, 0x00, 0x41, 0x00, 0x00, 0x00,
      0x41, 0x00, 0x00, 0x00, 0x41, 0x00, 0x00, 0x00]"

text \<open>A stand-in decoder that reports the architecture and mode it was built for, a
  layer of a given class that reads as \<open>0x90\<close> bytes, and a running shell whose only
  layer is that one.\<close>

definition demo_disasm :: capstone where
  "demo_disasm arch mode data offset =
     [\<lparr>insn_address = nat offset,
       mnemonic = (case arch of CS_ARCH_X86 \<Rightarrow> ''x86''
                   | CS_ARCH_ARM \<Rightarrow> ''arm'' | CS_ARCH_ARM64 \<Rightarrow> ''arm64''),
       op_str = (case mode of CS_MODE_32 \<Rightarrow> ''mode32''
                 | CS_MODE_64 \<Rightarrow> ''mode64'' | CS_MODE_ARM \<Rightarrow> ''modearm'')\<rparr>]"

definition demo_layer :: "layer_class \<Rightarrow> layer" where
  "demo_layer c = \<lparr>class_of = c, read = (\<lambda>offset count. Inr (replicate (nat count) 0x90))\<rparr>"

definition demo_shell :: "layer_class \<Rightarrow> volshell" where
  "demo_shell c =
     run \<lparr>primary = ''primary'', layers = [''primary'' \<mapsto> demo_layer c],
          current_layer_attr = None, ps1 = ''>>> ''\<rparr>"

text \<open>Two members whose offsets and names differ in length.\<close>

definition example_members :: members where
  "example_members = [(''a'', 0x0, ''int''), (''bb'', 0x1000, ''char'')]"

text \<open>A running shell whose configured primary layer has the empty name.\<close>

definition unnamed_primary_shell :: volshell where
  "unnamed_primary_shell =
     run \<lparr>primary = '''', layers = ['''' \<mapsto> demo_layer Intel],
          current_layer_attr = None, ps1 = ''>>> ''\<rparr>"

section \<open>Auxiliary facts\<close>

lemma hex_val_hexdigit: "d < 16 \<Longrightarrow> hex_val (hexdigit d) = Some d"
  by (simp add: hex_val_def hexdigit_def Let_def)

lemma length_hex_digits_pos: "0 < length (hex_digits n)"
  by (subst hex_digits.simps) simp

lemma hexdigit_0: "hexdigit 0 = CHR ''0''"
  by code_simp

lemma hex_fixed_zero: "hex_fixed k 0 = replicate k CHR ''0''"
  by (induction k) (simp_all add: hexdigit_0 replicate_append_same)

lemma length_hex_fixed: "length (hex_fixed k n) = k"
  by (induction k arbitrary: n) simp_all

lemma hex_digits_fixed:
  "n < 16 ^ Suc k \<Longrightarrow>
     replicate (Suc k - length (hex_digits n)) CHR ''0'' @ hex_digits n = hex_fixed (Suc k) n"
proof (induction k arbitrary: n)
  case 0
  then show ?case by (subst (1 2) hex_digits.simps) simp
next
  case (Suc k)
  show ?case
  proof (cases "n < 16")
    case True
    then show ?thesis
      by (subst (1 2) hex_digits.simps) (simp add: hex_fixed_zero replicate_append_same)
  next
    case False
    from Suc.prems have "n div 16 < 16 ^ Suc k"
      by (simp add: less_mult_imp_div_less)
    from Suc.IH [OF this] False show ?thesis
      by (subst (1 2) hex_digits.simps) simp
  qed
qed

lemma format_0x_fixed: "0 < k \<Longrightarrow> n < 16 ^ k \<Longrightarrow> format_0x k n = hex_fixed k n"
  using hex_digits_fixed [of n "k - 1"] by (simp add: format_0x_def Let_def)

lemma from_bytes_Big_snoc:
  "from_bytes Big (bs @ [b]) = 256 * from_bytes Big bs + unat b"
  by simp

lemma from_bytes_Little_rev: "from_bytes Little bs = from_bytes Big (rev bs)"
  by (induction bs) simp_all

lemma from_bytes_Big_less: "from_bytes Big bs < 256 ^ length bs"
proof (induction bs rule: rev_induct)
  case Nil
  then show ?case by simp
next
  case (snoc b bs)
  have "unat b < 256" using unsigned_less [of b] by simp
  with snoc show ?case by simp
qed

lemma nibble_div: "(256 * N + c) div 16 = 16 * N + c div (16::nat)"
proof -
  have "256 * N + c = c + (16 * N) * 16" by simp
  then show ?thesis by (simp only: div_mult_self1)
qed

lemma nibble_mod: "(256 * N + c) mod 16 = c mod (16::nat)"
proof -
  have "256 * N + c = c + (16 * N) * 16" by simp
  then show ?thesis by (simp only: mod_mult_self1)
qed

lemma hex_fixed_byte:
  assumes "c < 256"
  shows "hex_fixed (Suc (Suc k)) (256 * N + c) =
         hex_fixed k N @ [hexdigit (c div 16), hexdigit (c mod 16)]"
  using assms by (simp add: nibble_div nibble_mod)

lemma hex_fixed_from_bytes: "hex_fixed (2 * length bs) (from_bytes Big bs) = hexlify bs"
proof (induction bs rule: rev_induct)
  case Nil
  then show ?case by (simp add: hexlify_def)
next
  case (snoc b bs)
  have b: "unat b < 256" using unsigned_less [of b] by simp
  have "hex_fixed (2 * length (bs @ [b])) (from_bytes Big (bs @ [b])) =
        hex_fixed (Suc (Suc (2 * length bs))) (256 * from_bytes Big bs + unat b)"
    by (simp only: from_bytes_Big_snoc) simp
  also have "\<dots> = hex_fixed (2 * length bs) (from_bytes Big bs) @ hex2 b"
    using b by (simp only: hex_fixed_byte hex2_def)
  also have "\<dots> = hexlify (bs @ [b])"
    by (simp only: snoc.IH) (simp add: hexlify_def)
  finally show ?case .
qed

lemma unhexlify_hexlify: "unhexlify (hexlify bs) = Inr bs"
proof (induction bs)
  case Nil
  then show ?case by (simp add: hexlify_def)
next
  case (Cons b bs)
  have b: "unat b < 256" using unsigned_less [of b] by simp
  then have "unat b div 16 < 16" by simp
  moreover have "16 * (unat b div 16) + unat b mod 16 = unat b" by simp
  ultimately show ?case
    using Cons by (simp add: hexlify_def hex2_def hex_val_hexdigit)
qed

lemma format_0x_from_bytes:
  assumes "bs \<noteq> []"
  shows "format_0x (2 * length bs) (from_bytes Big bs) = hexlify bs"
proof -
  have "from_bytes Big bs < 16 ^ (2 * length bs)"
    using from_bytes_Big_less [of bs] by (simp add: power_mult)
  moreover have "0 < 2 * length bs" using assms by simp
  ultimately have "format_0x (2 * length bs) (from_bytes Big bs) =
      hex_fixed (2 * length bs) (from_bytes Big bs)"
    by (simp only: format_0x_fixed)
  then show ?thesis by (simp only: hex_fixed_from_bytes)
qed


lemma calcsize_pos: "0 < calcsize fmt"
  by (cases fmt) simp_all

lemma calcsize_dvd_16: "calcsize fmt dvd 16"
  by (cases fmt) simp_all

lemma calcsize_cases: "calcsize fmt \<in> {1, 2, 4, 8}"
  by (cases fmt) simp_all

lemma block_length:
  assumes "0 < w" and "w dvd length line" and "i < length line div w"
  shows "length (take w (drop (w * i) line)) = w"
proof -
  from assms(2) obtain k where k: "length line = w * k" by (auto simp: dvd_def)
  with assms have "i < k" by simp
  then have "Suc i \<le> k" by simp
  then have "w * Suc i \<le> w * k" by (rule mult_le_mono2)
  with k show ?thesis by simp
qed

lemma block_empty:
  assumes "0 < w" and "w dvd length line" and "length line div w \<le> i"
  shows "take w (drop (w * i) line) = []"
proof -
  from assms(2) obtain k where k: "length line = w * k" by (auto simp: dvd_def)
  with assms have "k \<le> i" by simp
  then have "w * k \<le> w * i" by simp
  with k show ?thesis by simp
qed

lemma filter_blocks:
  assumes "0 < w" and "w dvd length line" and "length line div w \<le> n"
  shows "filter (\<lambda>x. x \<noteq> []) (map (\<lambda>i. take w (drop (w * i) line)) [0 ..< n])
         = blocks_of w line"
proof -
  let ?k = "length line div w"
  let ?f = "\<lambda>i. take w (drop (w * i) line)"
  have split: "[0 ..< n] = [0 ..< ?k] @ [?k ..< n]"
    using assms(3) by (metis le_add_diff_inverse upt_add_eq_append zero_le)
  have "\<forall>x \<in> set (map ?f [0 ..< ?k]). x \<noteq> []"
  proof
    fix x assume "x \<in> set (map ?f [0 ..< ?k])"
    then obtain i where "i < ?k" and "x = ?f i" by auto
    with block_length [OF assms(1,2)] have "length x = w" by simp
    with assms(1) show "x \<noteq> []" by auto
  qed
  then have a: "filter (\<lambda>x. x \<noteq> []) (map ?f [0 ..< ?k]) = map ?f [0 ..< ?k]"
    by (rule filter_True)
  have "\<forall>x \<in> set (map ?f [?k ..< n]). \<not> x \<noteq> []"
  proof
    fix x assume "x \<in> set (map ?f [?k ..< n])"
    then obtain i where "?k \<le> i" and "x = ?f i" by auto
    with block_empty [OF assms(1,2)] show "\<not> x \<noteq> []" by simp
  qed
  then have b: "filter (\<lambda>x. x \<noteq> []) (map ?f [?k ..< n]) = []"
    by (rule filter_False)
  show ?thesis
    by (simp only: split map_append filter_append a b blocks_of_def append_Nil2)
qed

lemma blocks_of_length:
  assumes "0 < w" and "w dvd length line" and "x \<in> set (blocks_of w line)"
  shows "length x = w"
proof -
  from assms(3) obtain i where "i < length line div w" and "x = take w (drop (w * i) line)"
    by (auto simp: blocks_of_def)
  with block_length [OF assms(1,2)] show ?thesis by simp
qed

lemma concat_blocks_take:
  "concat (map (\<lambda>i. take w (drop (w * i) line)) [0 ..< k]) = take (w * k) line"
proof (induction k)
  case 0
  then show ?case by simp
next
  case (Suc k)
  have "take (w * k + w) line = take (w * k) line @ take w (drop (w * k) line)"
    by (rule take_add)
  with Suc show ?case by (simp add: add.commute)
qed

lemma concat_blocks_of:
  assumes "w dvd length line"
  shows "concat (blocks_of w line) = line"
proof -
  from assms have "w * (length line div w) = length line" by simp
  then show ?thesis by (simp add: blocks_of_def concat_blocks_take)
qed

lemma length_blocks_of: "length (blocks_of w line) = length line div w"
  by (simp add: blocks_of_def)

lemma map_result_Inr:
  "(\<And>x. x \<in> set xs \<Longrightarrow> f x = Inr (g x)) \<Longrightarrow> map_result f xs = Inr (map g xs)"
  by (induction xs) simp_all

lemma map_result_map_Inr:
  "(\<And>x. x \<in> set xs \<Longrightarrow> f (h x) = Inr (g x)) \<Longrightarrow> map_result f (map h xs) = Inr (map g xs)"
  by (induction xs) simp_all

lemma cell_render:
  assumes "length x = calcsize fmt"
  shows "(case unpack bo fmt x of Inl e \<Rightarrow> Inl e
          | Inr v \<Rightarrow> Inr (format_0x (2 * calcsize fmt) v))
         = Inr (hexlify (display_order bo x))"
proof -
  have ne: "display_order bo x \<noteq> []"
    using assms calcsize_pos [of fmt] by (cases bo) auto
  have len: "length (display_order bo x) = calcsize fmt"
    using assms by (cases bo) simp_all
  have val: "from_bytes bo x = from_bytes Big (display_order bo x)"
    by (cases bo) (simp_all only: from_bytes_Little_rev display_order.simps)
  have "format_0x (2 * calcsize fmt) (from_bytes bo x) = hexlify (display_order bo x)"
    using format_0x_from_bytes [OF ne] by (simp only: len val)
  with assms show ?thesis by (simp add: unpack_def del: from_bytes.simps)
qed

lemma ascii_bytes_hexlify: "ascii_bytes (hexlify bs) = Inr (map ascii_char bs)"
  by (simp add: ascii_bytes_def unhexlify_hexlify)

lemma make_row_eq:
  assumes dv: "calcsize fmt dvd length line" and le: "length line \<le> 16"
  shows "make_row bo fmt ascii offset line = Inr (row_of bo fmt ascii offset line)"
proof -
  let ?w = "calcsize fmt"
  have w: "0 < ?w" by (rule calcsize_pos)
  have "length line div ?w \<le> 16 div ?w" using le by (rule div_le_mono)
  from filter_blocks [OF w dv this]
  have fb: "filter (\<lambda>x. x \<noteq> []) (map (\<lambda>i. take ?w (drop (?w * i) line)) [0 ..< 16 div ?w])
            = blocks_of ?w line" .
  have valid: "map_result (\<lambda>x. case unpack bo fmt x of Inl e \<Rightarrow> Inl e
                  | Inr v \<Rightarrow> Inr (format_0x (2 * ?w) v)) (blocks_of ?w line)
               = Inr (map (\<lambda>x. hexlify (display_order bo x)) (blocks_of ?w line))"
    by (rule map_result_Inr) (simp only: cell_render blocks_of_length [OF w dv])
  have asc: "map_result ascii_bytes (map (\<lambda>x. hexlify (display_order bo x)) (blocks_of ?w line))
             = Inr (map (\<lambda>x. map ascii_char (display_order bo x)) (blocks_of ?w line))"
    by (rule map_result_map_Inr) (rule ascii_bytes_hexlify)
  have pad: "map (\<lambda>_. replicate (2 * ?w) CHR '' '') [0 ..< (16 - length line) div ?w]
             = replicate ((16 - length line) div ?w) (replicate (2 * ?w) CHR '' '')"
    by (simp add: map_replicate_const)
  show ?thesis
    unfolding make_row_def row_of_def Let_def fb valid pad
    by (simp add: asc)
qed


lemma row_count_step: "0 < (L::nat) \<Longrightarrow> (L + 15) div 16 = Suc ((L - 16 + 15) div 16)"
proof (cases "16 \<le> L")
  case True
  then obtain m where m: "L = m + 16" by (metis le_add_diff_inverse2)
  have "(m + 15 + 16) div 16 = Suc ((m + 15) div 16)" by (simp only: div_add_self2)
  then show ?thesis by (simp add: m)
next
  case False
  assume "0 < L"
  then have e: "L + 15 = (L - 1) + 16" by simp
  have "(L - 1 + 16) div 16 = Suc ((L - 1) div 16)" by (simp only: div_add_self2)
  moreover from False have "(L - 1) div 16 = 0" by simp
  ultimately have "(L + 15) div 16 = 1" by (simp only: e)
  moreover from False have "(L - 16 + 15) div 16 = 0" by simp
  ultimately show ?thesis by simp
qed

lemma dvd_rest: "w dvd Suc n \<Longrightarrow> w dvd (16::nat) \<Longrightarrow> 15 \<le> n \<Longrightarrow> w dvd n - 15"
proof -
  assume a: "w dvd Suc n" "w dvd 16" "15 \<le> n"
  then have "Suc n - 16 = n - 15" by simp
  moreover from a have "w dvd Suc n - 16" by (simp only: dvd_diff_nat)
  ultimately show ?thesis by simp
qed
lemma rows_of_Nil: "rows_of bo fmt ascii offset [] = []"
  by (simp add: rows_of_def)

lemma rows_of_Cons:
  assumes "data \<noteq> []"
  shows "rows_of bo fmt ascii offset data =
         row_of bo fmt ascii offset (take 16 data)
           # rows_of bo fmt ascii (offset + 16) (drop 16 data)"
proof -
  let ?n = "(length data - 16 + 15) div 16"
  from assms have "0 < length data" by simp
  then have n: "(length data + 15) div 16 = Suc ?n" by (rule row_count_step)
  have "[0 ..< Suc ?n] = 0 # map Suc [0 ..< ?n]"
    by (simp only: upt_conv_Cons [of 0] map_Suc_upt zero_less_Suc)
  then show ?thesis
    by (simp add: rows_of_def n comp_def algebra_simps del: upt_Suc)
qed

lemma display_loop_eq:
  "calcsize fmt dvd length data \<Longrightarrow>
     display_loop bo fmt ascii offset data = Inr (rows_of bo fmt ascii offset data)"
proof (induction bo fmt ascii offset data rule: display_loop.induct)
  case (1 bo fmt ascii offset)
  then show ?case by (simp add: rows_of_Nil)
next
  case (2 bo fmt ascii offset b bs)
  let ?data = "b # bs"
  have d16: "calcsize fmt dvd 16" by (rule calcsize_dvd_16)
  have "length (take 16 ?data) = min (length ?data) 16" by simp
  then have dv: "calcsize fmt dvd length (take 16 ?data)"
    using 2(2) d16 by (simp only: min_def split: if_splits) auto
  have le: "length (take 16 ?data) \<le> 16" by simp
  have row: "make_row bo fmt ascii offset (take 16 ?data)
             = Inr (row_of bo fmt ascii offset (take 16 ?data))"
    using dv le by (rule make_row_eq)
  have "calcsize fmt dvd length ?data - 16"
    using 2(2) d16 by (rule dvd_diff_nat)
  then have "calcsize fmt dvd length (drop 16 ?data)" by simp
  with 2(1) [OF row] have rest: "display_loop bo fmt ascii (offset + 16) (drop 16 ?data)
      = Inr (rows_of bo fmt ascii (offset + 16) (drop 16 ?data))" .
  have "display_loop bo fmt ascii offset ?data
        = Inr (row_of bo fmt ascii offset (take 16 ?data)
                # rows_of bo fmt ascii (offset + 16) (drop 16 ?data))"
    by (simp only: display_loop.simps row rest sum.case)
  then show ?case
    by (simp only: rows_of_Cons [of ?data, OF list.distinct(2)])
qed

lemma display_rows_eq:
  "display_rows bo offset data fmt ascii =
     Inr (rows_of bo fmt ascii offset
            (take (length data - length data mod calcsize fmt) data))"
proof -
  have "length data mod calcsize fmt \<le> length data" by (rule mod_less_eq_dividend)
  then have "length (take (length data - length data mod calcsize fmt) data)
             = length data - length data mod calcsize fmt" by simp
  moreover have "calcsize fmt dvd length data - length data mod calcsize fmt"
    by (rule dvd_minus_mod)
  ultimately have "calcsize fmt dvd
      length (take (length data - length data mod calcsize fmt) data)" by simp
  then show ?thesis
    unfolding display_rows_def Let_def by (rule display_loop_eq)
qed

section \<open>The dump formatter\<close>

lemma length_rows_of: "length (rows_of bo fmt ascii offset data) = (length data + 15) div 16"
  by (simp add: rows_of_def)

lemma nth_rows_of:
  "i < (length data + 15) div 16 \<Longrightarrow>
     rows_of bo fmt ascii offset data ! i =
       row_of bo fmt ascii (offset + 16 * int i) (take 16 (drop (16 * i) data))"
  by (simp add: rows_of_def)

lemma row_of_address: "address (row_of bo fmt ascii offset line) = offset + 16"
  by (simp add: row_of_def Let_def)

lemma row_of_current_line: "current_line (row_of bo fmt ascii offset line) = line"
  by (simp add: row_of_def Let_def)

lemma print_row_eq:
  "print_row r = hex (address r) @ ''    '' @ hex_data r @ ''    '' @ ascii_data r"
  by (simp add: print_row_def print_args_def)

text \<open>
  Claim C1.  \<open>_display_data\<close> never raises; its \<open>i\<close>-th row holds the bytes that
  start \<open>16 * i\<close> bytes into the (truncated) buffer, that is at offset
  \<open>offset + 16 * i\<close>, and the label printed in front of it is that starting offset
  plus 16: the first row of a dump at \<open>O\<close> is labelled \<open>O + 16\<close>, the second
  \<open>O + 32\<close>, and so on.
\<close>

theorem display_data_labels:
  "\<exists>rows. display_rows bo offset data fmt ascii = Inr rows \<and>
      display_data bo offset data fmt ascii = Inr (map print_row rows) \<and>
      (\<forall>i < length rows.
         current_line (rows ! i) =
           take 16 (drop (16 * i) (take (length data - length data mod calcsize fmt) data)) \<and>
         address (rows ! i) = (offset + 16 * int i) + 16 \<and>
         print_row (rows ! i) =
           hex ((offset + 16 * int i) + 16) @ ''    '' @ hex_data (rows ! i)
             @ ''    '' @ ascii_data (rows ! i))"
proof -
  let ?d = "take (length data - length data mod calcsize fmt) data"
  let ?rows = "rows_of bo fmt ascii offset ?d"
  have r: "display_rows bo offset data fmt ascii = Inr ?rows" by (rule display_rows_eq)
  then have p: "display_data bo offset data fmt ascii = Inr (map print_row ?rows)"
    by (simp add: display_data_def)
  have "\<forall>i < length ?rows.
         current_line (?rows ! i) = take 16 (drop (16 * i) ?d) \<and>
         address (?rows ! i) = (offset + 16 * int i) + 16 \<and>
         print_row (?rows ! i) =
           hex ((offset + 16 * int i) + 16) @ ''    '' @ hex_data (?rows ! i)
             @ ''    '' @ ascii_data (?rows ! i)"
  proof (intro allI impI)
    fix i assume "i < length ?rows"
    then have "i < (length ?d + 15) div 16" by (simp only: length_rows_of)
    then have "?rows ! i = row_of bo fmt ascii (offset + 16 * int i) (take 16 (drop (16 * i) ?d))"
      by (rule nth_rows_of)
    then show "current_line (?rows ! i) = take 16 (drop (16 * i) ?d) \<and>
         address (?rows ! i) = (offset + 16 * int i) + 16 \<and>
         print_row (?rows ! i) =
           hex ((offset + 16 * int i) + 16) @ ''    '' @ hex_data (?rows ! i)
             @ ''    '' @ ascii_data (?rows ! i)"
      by (simp only: print_row_eq row_of_address row_of_current_line simp_thms)
  qed
  with r p show ?thesis by blast
qed

theorem display_data_labels_witness:
  "case display_rows Little 4096 (replicate 17 65) Fmt_B True of
     Inl e \<Rightarrow> False
   | Inr rows \<Rightarrow> length rows = 2 \<and> address (rows ! 0) = 4112 \<and> address (rows ! 1) = 4128"
proof -
  from display_data_labels [of Little 4096 "replicate 17 65" Fmt_B True]
  obtain rows where r: "display_rows Little 4096 (replicate 17 65) Fmt_B True = Inr rows"
    and a: "\<forall>i < length rows. address (rows ! i) = (4096 + 16 * int i) + 16"
    by blast
  have "length (projr (display_rows Little 4096 (replicate 17 65) Fmt_B True)) = 2"
    by code_simp
  with r have len: "length rows = 2" by simp
  with a have "address (rows ! 0) = 4112" and "address (rows ! 1) = 4128" by simp_all
  with r len show ?thesis by simp
qed

lemma concat_lines_take:
  "concat (map (\<lambda>i. take 16 (drop (16 * i) d)) [0 ..< k]) = take (16 * k) d"
  by (rule concat_blocks_take)

lemma concat_current_lines:
  "concat (map current_line (rows_of bo fmt ascii offset d)) = d"
proof -
  have "length d \<le> 16 * ((length d + 15) div 16)"
  proof -
    have "length d + 15 = (length d + 15) div 16 * 16 + (length d + 15) mod 16"
      by simp
    moreover have "(length d + 15) mod 16 < 16" by simp
    ultimately show ?thesis by linarith
  qed
  then have "take (16 * ((length d + 15) div 16)) d = d" by simp
  moreover have "map current_line (rows_of bo fmt ascii offset d) =
        map (\<lambda>i. take 16 (drop (16 * i) d)) [0 ..< (length d + 15) div 16]"
    by (simp add: rows_of_def row_of_current_line comp_def)
  ultimately show ?thesis by (simp only: concat_lines_take)
qed

lemma length_hexlify: "length (hexlify bs) = 2 * length bs"
  by (induction bs) (simp_all add: hexlify_def hex2_def)

lemma length_display_order: "length (display_order bo x) = length x"
  by (cases bo) simp_all

lemma cells_per_row:
  assumes "0 < w" and "w dvd length line" and "w dvd 16" and "length line \<le> 16"
  shows "length line div w + (16 - length line) div w = 16 div w"
proof -
  from assms(2) obtain k where k: "length line = w * k" by (auto simp: dvd_def)
  from assms(3) obtain m where m: "16 = w * m" by (auto simp: dvd_def)
  have "w * k \<le> w * m" using assms(4) by (simp only: k m)
  with assms(1) have km: "k \<le> m" by simp
  have "16 - length line = w * (m - k)" by (simp only: k m diff_mult_distrib2)
  with assms(1) have "(16 - length line) div w = m - k" by simp
  moreover from assms(1) k have "length line div w = k" by simp
  moreover from assms(1) m have "16 div w = m" by (simp only: m) simp
  ultimately show ?thesis using km by simp
qed

lemma row_of_fields:
  "data_blocks (row_of bo fmt ascii offset line) = blocks_of (calcsize fmt) line"
  "valid_data (row_of bo fmt ascii offset line) =
     map (\<lambda>x. hexlify (display_order bo x)) (blocks_of (calcsize fmt) line)"
  "padding_data (row_of bo fmt ascii offset line) =
     replicate ((16 - length line) div calcsize fmt) (replicate (2 * calcsize fmt) CHR '' '')"
  "hex_data (row_of bo fmt ascii offset line) =
     join '' '' (valid_data (row_of bo fmt ascii offset line)
                 @ padding_data (row_of bo fmt ascii offset line))"
  "ascii_data (row_of bo fmt ascii offset line) =
     (if ascii
      then join (if calcsize fmt < 2 then [] else '' '')
             (map (\<lambda>x. map ascii_char (display_order bo x)) (blocks_of (calcsize fmt) line))
      else [])"
  by (simp_all add: row_of_def Let_def)

lemma rows_of_member:
  assumes "r \<in> set (rows_of bo fmt ascii offset d)" and "calcsize fmt dvd length d"
  obtains off line where "r = row_of bo fmt ascii off line"
    and "calcsize fmt dvd length line" and "length line \<le> 16"
proof -
  from assms(1) obtain i where r: "r = row_of bo fmt ascii (offset + 16 * int i) (take 16 (drop (16 * i) d))"
    by (auto simp: rows_of_def)
  have "length (take 16 (drop (16 * i) d)) = min (length d - 16 * i) 16" by simp
  moreover have "calcsize fmt dvd length d - 16 * i"
    using assms(2) calcsize_dvd_16 [of fmt] by (simp add: dvd_diff_nat)
  ultimately have "calcsize fmt dvd length (take 16 (drop (16 * i) d))"
    using calcsize_dvd_16 [of fmt] by (simp only: min_def split: if_splits) auto
  moreover have "length (take 16 (drop (16 * i) d)) \<le> 16" by simp
  ultimately show ?thesis using r that by blast
qed

lemma truncated_dvd:
  "calcsize fmt dvd length (take (length data - length data mod calcsize fmt) data)"
proof -
  have "length data mod calcsize fmt \<le> length data" by (rule mod_less_eq_dividend)
  then have "length (take (length data - length data mod calcsize fmt) data)
             = length data - length data mod calcsize fmt" by simp
  moreover have "calcsize fmt dvd length data - length data mod calcsize fmt"
    by (rule dvd_minus_mod)
  ultimately show ?thesis by simp
qed

text \<open>The rows of a dump and their cells, before the line is printed.\<close>

lemma row_cells:
  "\<exists>rows. display_rows bo offset data fmt ascii = Inr rows \<and>
      display_data bo offset data fmt ascii = Inr (map print_row rows) \<and>
      concat (map current_line rows) =
        take (length data - length data mod calcsize fmt) data \<and>
      (\<forall>r \<in> set rows.
         concat (data_blocks r) = current_line r \<and>
         (\<forall>x \<in> set (data_blocks r). length x = calcsize fmt) \<and>
         valid_data r = map (\<lambda>x. hexlify (display_order bo x)) (data_blocks r) \<and>
         length (valid_data r) + length (padding_data r) = 16 div calcsize fmt \<and>
         (\<forall>c \<in> set (valid_data r). length c = 2 * calcsize fmt) \<and>
         (\<forall>c \<in> set (padding_data r). c = replicate (2 * calcsize fmt) CHR '' '') \<and>
         hex_data r = join '' '' (valid_data r @ padding_data r))"
proof -
  let ?w = "calcsize fmt"
  let ?d = "take (length data - length data mod ?w) data"
  let ?rows = "rows_of bo fmt ascii offset ?d"
  have w: "0 < ?w" by (rule calcsize_pos)
  have r: "display_rows bo offset data fmt ascii = Inr ?rows" by (rule display_rows_eq)
  then have p: "display_data bo offset data fmt ascii = Inr (map print_row ?rows)"
    by (simp add: display_data_def)
  have c: "concat (map current_line ?rows) = ?d" by (rule concat_current_lines)
  have "\<forall>r \<in> set ?rows.
         concat (data_blocks r) = current_line r \<and>
         (\<forall>x \<in> set (data_blocks r). length x = ?w) \<and>
         valid_data r = map (\<lambda>x. hexlify (display_order bo x)) (data_blocks r) \<and>
         length (valid_data r) + length (padding_data r) = 16 div ?w \<and>
         (\<forall>c \<in> set (valid_data r). length c = 2 * ?w) \<and>
         (\<forall>c \<in> set (padding_data r). c = replicate (2 * ?w) CHR '' '') \<and>
         hex_data r = join '' '' (valid_data r @ padding_data r)"
  proof
    fix r assume "r \<in> set ?rows"
    then obtain off line where r: "r = row_of bo fmt ascii off line"
      and dv: "?w dvd length line" and le: "length line \<le> 16"
      using truncated_dvd [of fmt data] by (rule rows_of_member)
    have 1: "concat (data_blocks r) = current_line r"
      by (simp only: r row_of_fields row_of_current_line concat_blocks_of [OF dv])
    have 2: "\<forall>x \<in> set (data_blocks r). length x = ?w"
      using blocks_of_length [OF w dv] by (simp only: r row_of_fields) blast
    have 3: "valid_data r = map (\<lambda>x. hexlify (display_order bo x)) (data_blocks r)"
      by (simp only: r row_of_fields)
    have 4: "length (valid_data r) + length (padding_data r) = 16 div ?w"
      using cells_per_row [OF w dv calcsize_dvd_16 le]
      by (simp only: r row_of_fields length_map length_replicate length_blocks_of)
    have 5: "\<forall>c \<in> set (valid_data r). length c = 2 * ?w"
      using 2 by (auto simp: 3 length_hexlify length_display_order)
    have 6: "\<forall>c \<in> set (padding_data r). c = replicate (2 * ?w) CHR '' ''"
      by (simp add: r row_of_fields)
    have 7: "hex_data r = join '' '' (valid_data r @ padding_data r)"
      by (simp only: r row_of_fields(4))
    from 1 2 3 4 5 6 7
    show "concat (data_blocks r) = current_line r \<and>
         (\<forall>x \<in> set (data_blocks r). length x = ?w) \<and>
         valid_data r = map (\<lambda>x. hexlify (display_order bo x)) (data_blocks r) \<and>
         length (valid_data r) + length (padding_data r) = 16 div ?w \<and>
         (\<forall>c \<in> set (valid_data r). length c = 2 * ?w) \<and>
         (\<forall>c \<in> set (padding_data r). c = replicate (2 * ?w) CHR '' '') \<and>
         hex_data r = join '' '' (valid_data r @ padding_data r)"
      by (intro conjI)
  qed
  with r p c show ?thesis by blast
qed

text \<open>
  Claim C2.  For every buffer and each of the four element widths \<open>w\<close>,
  \<open>_display_data\<close> raises nothing and its rows hold, in order, exactly the first
  \<open>L - L mod w\<close> bytes of the buffer.  In each row the present cells render the
  row's bytes block by block (two hexadecimal digits per byte), present and padding
  cells together are exactly \<open>16 div w\<close>, every present cell is \<open>2 * w\<close> characters
  wide and every padding cell is a run of \<open>2 * w\<close> spaces.  The line printed for the
  row is its label, four spaces, these \<open>16 div w\<close> cells joined by single spaces,
  four spaces and the ASCII panel.
\<close>

theorem display_data_cells:
  "\<exists>rows. display_rows bo offset data fmt ascii = Inr rows \<and>
      display_data bo offset data fmt ascii = Inr (map print_row rows) \<and>
      concat (map current_line rows) =
        take (length data - length data mod calcsize fmt) data \<and>
      (\<forall>r \<in> set rows.
         concat (data_blocks r) = current_line r \<and>
         (\<forall>x \<in> set (data_blocks r). length x = calcsize fmt) \<and>
         valid_data r = map (\<lambda>x. hexlify (display_order bo x)) (data_blocks r) \<and>
         length (valid_data r) + length (padding_data r) = 16 div calcsize fmt \<and>
         (\<forall>c \<in> set (valid_data r). length c = 2 * calcsize fmt) \<and>
         (\<forall>c \<in> set (padding_data r). c = replicate (2 * calcsize fmt) CHR '' '') \<and>
         hex_data r = join '' '' (valid_data r @ padding_data r) \<and>
         print_row r =
           hex (address r) @ ''    '' @ join '' '' (valid_data r @ padding_data r)
             @ ''    '' @ ascii_data r)"
proof -
  from row_cells [of bo offset data fmt ascii]
  obtain rows where r: "display_rows bo offset data fmt ascii = Inr rows"
    and p: "display_data bo offset data fmt ascii = Inr (map print_row rows)"
    and c: "concat (map current_line rows) =
        take (length data - length data mod calcsize fmt) data"
    and a: "\<forall>r \<in> set rows.
         concat (data_blocks r) = current_line r \<and>
         (\<forall>x \<in> set (data_blocks r). length x = calcsize fmt) \<and>
         valid_data r = map (\<lambda>x. hexlify (display_order bo x)) (data_blocks r) \<and>
         length (valid_data r) + length (padding_data r) = 16 div calcsize fmt \<and>
         (\<forall>c \<in> set (valid_data r). length c = 2 * calcsize fmt) \<and>
         (\<forall>c \<in> set (padding_data r). c = replicate (2 * calcsize fmt) CHR '' '') \<and>
         hex_data r = join '' '' (valid_data r @ padding_data r)"
    by blast
  have "\<forall>r \<in> set rows. print_row r =
           hex (address r) @ ''    '' @ join '' '' (valid_data r @ padding_data r)
             @ ''    '' @ ascii_data r"
  proof
    fix r assume "r \<in> set rows"
    with a have "hex_data r = join '' '' (valid_data r @ padding_data r)" by blast
    then show "print_row r =
           hex (address r) @ ''    '' @ join '' '' (valid_data r @ padding_data r)
             @ ''    '' @ ascii_data r"
      by (simp only: print_row_eq)
  qed
  with r p c a show ?thesis by blast
qed

theorem display_data_cells_witness:
  "(case display_rows Little 0 [1, 2, 3, 4, 5] Fmt_H True of
      Inl e \<Rightarrow> False
    | Inr rows \<Rightarrow>
        rows \<noteq> [] \<and> concat (map current_line rows) = [1, 2, 3, 4] \<and>
        (\<forall>r \<in> set rows. length (valid_data r) + length (padding_data r) = 8 \<and>
           (\<forall>c \<in> set (valid_data r @ padding_data r). length c = 4)))
   \<and> display_data Little 0 [1, 2, 3, 4, 5] Fmt_H True =
       Inr [''0x10'' @ ''    ''
            @ join '' '' [''0201'', ''0403'', ''    '', ''    '', ''    '', ''    '',
                          ''    '', ''    '']
            @ ''    '' @ ''.. ..'']"
proof -
  from display_data_cells [of Little 0 "[1, 2, 3, 4, 5]" Fmt_H True]
  obtain rows where r: "display_rows Little 0 [1, 2, 3, 4, 5] Fmt_H True = Inr rows"
    and p: "display_data Little 0 [1, 2, 3, 4, 5] Fmt_H True = Inr (map print_row rows)"
    and c: "concat (map current_line rows) =
              take (length [1, 2, 3, 4, 5 :: byte] - length [1, 2, 3, 4, 5 :: byte] mod calcsize Fmt_H)
                [1, 2, 3, 4, 5]"
    and a: "\<forall>r \<in> set rows.
         length (valid_data r) + length (padding_data r) = 16 div calcsize Fmt_H \<and>
         (\<forall>c \<in> set (valid_data r). length c = 2 * calcsize Fmt_H) \<and>
         (\<forall>c \<in> set (padding_data r). c = replicate (2 * calcsize Fmt_H) CHR '' '') \<and>
         print_row r =
           hex (address r) @ ''    '' @ join '' '' (valid_data r @ padding_data r)
             @ ''    '' @ ascii_data r"
    by blast
  from c have c': "concat (map current_line rows) = [1, 2, 3, 4]" by simp
  then have ne: "rows \<noteq> []" by auto
  from a have b: "\<forall>r \<in> set rows. length (valid_data r) + length (padding_data r) = 8 \<and>
          (\<forall>c \<in> set (valid_data r @ padding_data r). length c = 4)"
    by fastforce
  have t: "take (length [1, 2, 3, 4, 5 :: byte] - length [1, 2, 3, 4, 5 :: byte] mod calcsize Fmt_H)
             [1, 2, 3, 4, 5 :: byte] = [1, 2, 3, 4]"
    by simp
  have ro: "rows = rows_of Little Fmt_H True 0 [1, 2, 3, 4]"
    using r by (simp only: display_rows_eq t sum.inject)
  have "length (rows_of Little Fmt_H True 0 [1, 2, 3, 4]) = 1" by code_simp
  then obtain r0 where r0: "rows = [r0]"
    unfolding ro [symmetric] by (cases rows) auto
  have "map address (rows_of Little Fmt_H True 0 [1, 2, 3, 4]) = [16]"
    and "map valid_data (rows_of Little Fmt_H True 0 [1, 2, 3, 4]) = [[''0201'', ''0403'']]"
    and "map padding_data (rows_of Little Fmt_H True 0 [1, 2, 3, 4]) =
           [[''    '', ''    '', ''    '', ''    '', ''    '', ''    '']]"
    and "map ascii_data (rows_of Little Fmt_H True 0 [1, 2, 3, 4]) = [''.. ..'']"
    by code_simp+
  then have f: "address r0 = 16" "valid_data r0 = [''0201'', ''0403'']"
    "padding_data r0 = [''    '', ''    '', ''    '', ''    '', ''    '', ''    '']"
    "ascii_data r0 = ''.. ..''"
    unfolding ro [symmetric] r0 by simp_all
  have h: "hex 16 = ''0x10''" by code_simp
  from a r0 have "print_row r0 =
      hex (address r0) @ ''    '' @ join '' '' (valid_data r0 @ padding_data r0)
             @ ''    '' @ ascii_data r0" by simp
  then have "print_row r0 = ''0x10'' @ ''    ''
            @ join '' '' [''0201'', ''0403'', ''    '', ''    '', ''    '', ''    '',
                          ''    '', ''    '']
            @ ''    '' @ ''.. ..''"
    unfolding f h by simp
  with p r0 have "display_data Little 0 [1, 2, 3, 4, 5] Fmt_H True =
       Inr [''0x10'' @ ''    ''
            @ join '' '' [''0201'', ''0403'', ''    '', ''    '', ''    '', ''    '',
                          ''    '', ''    '']
            @ ''    '' @ ''.. ..'']"
    by simp
  with r c' ne b show ?thesis by simp
qed

section \<open>The ASCII panel\<close>

lemma ascii_char_alt:
  "ascii_char = (\<lambda>b. if 0x20 < unat b \<and> unat b < 0x7F then char_of (unat b) else CHR ''.'')"
  by (rule ext) (simp add: ascii_char_def)

text \<open>
  Claim C3, as stated: a byte is shown literally exactly when it lies strictly between
  \<open>0x20\<close> and \<open>0x7E\<close>, so \<open>0x7E\<close> would be shown as a dot.  It is shown as \<open>~\<close>.
\<close>

theorem ascii_panel_counterexample:
  "ascii_bytes ''7e'' \<noteq>
     Inr [if spec_printable 0x7E then char_of (0x7E :: nat) else CHR ''.'']"
  by code_simp

text \<open>
  Claim C3, amended.  \<open>_ascii_bytes\<close> gives one character per byte of the
  hexadecimal string it receives: the byte's own character when the byte is strictly
  between \<open>0x20\<close> and \<open>0x7F\<close> (that is \<open>0x21\<close> to \<open>0x7E\<close>), a dot otherwise.  In
  every row of a dump the panel is built so from the bytes of each rendered cell, in
  the order of the cell's digits, one character per byte, the cells joined by the
  connector.
\<close>

theorem ascii_panel:
  "ascii_bytes (hexlify bs) =
     Inr (map (\<lambda>b. if 0x20 < unat b \<and> unat b < 0x7F then char_of (unat b) else CHR ''.'') bs)
   \<and> (\<forall>rows. display_rows bo offset data fmt True = Inr rows \<longrightarrow>
        (\<forall>r \<in> set rows.
           valid_data r = map (\<lambda>x. hexlify (display_order bo x)) (data_blocks r) \<and>
           (\<forall>x \<in> set (data_blocks r). length x = calcsize fmt) \<and>
           ascii_data r =
             join (if calcsize fmt < 2 then [] else '' '')
               (map (\<lambda>x. map (\<lambda>b. if 0x20 < unat b \<and> unat b < 0x7F
                                    then char_of (unat b) else CHR ''.'')
                            (display_order bo x))
                    (data_blocks r))))"
proof (intro conjI allI impI ballI)
  show "ascii_bytes (hexlify bs) =
     Inr (map (\<lambda>b. if 0x20 < unat b \<and> unat b < 0x7F then char_of (unat b) else CHR ''.'') bs)"
    by (simp only: ascii_bytes_hexlify ascii_char_alt)
next
  fix rows r
  assume "display_rows bo offset data fmt True = Inr rows" and "r \<in> set rows"
  then have "r \<in> set (rows_of bo fmt True offset
                 (take (length data - length data mod calcsize fmt) data))"
    by (simp add: display_rows_eq)
  then obtain off line where r: "r = row_of bo fmt True off line"
    and dv: "calcsize fmt dvd length line" and le: "length line \<le> 16"
    using truncated_dvd [of fmt data] by (rule rows_of_member)
  show "valid_data r = map (\<lambda>x. hexlify (display_order bo x)) (data_blocks r)"
    by (simp only: r row_of_fields)
  show "\<And>x. x \<in> set (data_blocks r) \<Longrightarrow> length x = calcsize fmt"
    using blocks_of_length [OF calcsize_pos dv] by (simp only: r row_of_fields)
  show "ascii_data r =
             join (if calcsize fmt < 2 then [] else '' '')
               (map (\<lambda>x. map (\<lambda>b. if 0x20 < unat b \<and> unat b < 0x7F
                                    then char_of (unat b) else CHR ''.'')
                            (display_order bo x))
                    (data_blocks r))"
    by (simp only: r row_of_fields if_True ascii_char_alt)
qed

theorem ascii_panel_witness:
  "ascii_bytes ''417e207f2100'' = Inr ''A~..!.'' \<and>
   (case display_rows Little 0 [0x41, 0x7E] Fmt_H True of
      Inl e \<Rightarrow> False
    | Inr rows \<Rightarrow> rows \<noteq> [] \<and> (\<forall>r \<in> set rows. ascii_data r = ''~A''))"
proof -
  have h: "hexlify [0x41, 0x7E, 0x20, 0x7F, 0x21, 0x00] = ''417e207f2100''"
    by code_simp
  have m: "map (\<lambda>b :: byte. if 0x20 < unat b \<and> unat b < 0x7F then char_of (unat b) else CHR ''.'')
             [0x41, 0x7E, 0x20, 0x7F, 0x21, 0x00] = ''A~..!.''"
    by code_simp
  have t: "take (length [0x41, 0x7E :: byte] - length [0x41, 0x7E :: byte] mod calcsize Fmt_H)
             [0x41, 0x7E :: byte] = [0x41, 0x7E]"
    by simp
  have "rows_of Little Fmt_H True 0 [0x41, 0x7E] =
      [\<lparr>address = 16, current_line = [0x41, 0x7E], data_blocks = [[0x41, 0x7E]],
         valid_data = [''7e41''],
         padding_data = [''    '', ''    '', ''    '', ''    '', ''    '', ''    '', ''    ''],
         hex_data = ''7e41                                   '',
         ascii_data = ''~A''\<rparr>]"
    by code_simp
  then have ev: "display_rows Little 0 [0x41, 0x7E] Fmt_H True =
      Inr [\<lparr>address = 16, current_line = [0x41, 0x7E], data_blocks = [[0x41, 0x7E]],
            valid_data = [''7e41''],
            padding_data = [''    '', ''    '', ''    '', ''    '', ''    '', ''    '', ''    ''],
            hex_data = ''7e41                                   '',
            ascii_data = ''~A''\<rparr>]"
    by (simp only: display_rows_eq t)
  from ascii_panel [of "[0x41, 0x7E, 0x20, 0x7F, 0x21, 0x00]" Little 0 "[0x41, 0x7E]" Fmt_H]
  have 1: "ascii_bytes ''417e207f2100'' = Inr ''A~..!.''"
    unfolding h m by (rule conjunct1)
  from ascii_panel [of "[]" Little 0 "[0x41, 0x7E]" Fmt_H] ev
  have "\<forall>r \<in> set [\<lparr>address = 16, current_line = [0x41, 0x7E], data_blocks = [[0x41, 0x7E]],
            valid_data = [''7e41''],
            padding_data = [''    '', ''    '', ''    '', ''    '', ''    '', ''    '', ''    ''],
            hex_data = ''7e41                                   '',
            ascii_data = ''~A''\<rparr>]. ascii_data r = ''~A''"
    by simp
  with 1 ev show ?thesis by simp
qed

section \<open>The specification's example\<close>

lemma example_truncate:
  "take (length example_data - length example_data mod calcsize Fmt_I) example_data
   = example_data"
  by (simp add: example_data_def)

lemma example_rows_Little:
  "rows_of Little Fmt_I True 0x1000 example_data =
     [\<lparr>address = 0x1010,
       current_line = example_data,
       data_blocks = [[0x41, 0x00, 0x00, 0x00], [0x41, 0x00, 0x00, 0x00],
                      [0x41, 0x00, 0x00, 0x00], [0x41, 0x00, 0x00, 0x00]],
       valid_data = [''00000041'', ''00000041'', ''00000041'', ''00000041''],
       padding_data = [],
       hex_data = ''00000041 00000041 00000041 00000041'',
       ascii_data = ''...A ...A ...A ...A''\<rparr>]"
  by code_simp

lemma example_rows_Big:
  "map print_row (rows_of Big Fmt_I True 0x1000 example_data) =
     [''0x1010    41000000 41000000 41000000 41000000    A... A... A... A...'']"
  by code_simp

lemma example_print_Little:
  "map print_row (rows_of Little Fmt_I True 0x1000 example_data) =
     [''0x1010    00000041 00000041 00000041 00000041    ...A ...A ...A ...A'']"
  by code_simp

lemma example_display:
  "display_data bo 0x1000 example_data Fmt_I True =
     Inr (map print_row (rows_of bo Fmt_I True 0x1000 example_data))"
  by (simp only: display_data_def display_rows_eq example_truncate sum.case)

text \<open>
  Claim C4, as stated: one row labelled \<open>0x1010\<close> with the cells \<open>00000041\<close> and the
  ASCII panel \<open>A A A A\<close>.  The panel is never that, whatever the host's byte order.
\<close>

theorem example_counterexample:
  "display_data Little 0x1000 example_data Fmt_I True \<noteq>
     Inr [''0x1010    00000041 00000041 00000041 00000041    A A A A'']
   \<and> display_data Big 0x1000 example_data Fmt_I True \<noteq>
     Inr [''0x1010    00000041 00000041 00000041 00000041    A A A A'']"
  by (simp only: example_display example_print_Little example_rows_Big) simp

text \<open>
  Claim C4, amended.  On a little-endian host the example gives exactly one row,
  labelled \<open>0x1010\<close>, whose four cells are \<open>00000041\<close> separated by spaces and whose
  ASCII panel is \<open>...A ...A ...A ...A\<close>: one character per byte of each cell, in the
  order of the cell's hexadecimal digits, the cells joined by single spaces.
\<close>

theorem example_row:
  "display_rows Little 0x1000 example_data Fmt_I True =
     Inr [\<lparr>address = 0x1010,
           current_line = example_data,
           data_blocks = [[0x41, 0x00, 0x00, 0x00], [0x41, 0x00, 0x00, 0x00],
                          [0x41, 0x00, 0x00, 0x00], [0x41, 0x00, 0x00, 0x00]],
           valid_data = [''00000041'', ''00000041'', ''00000041'', ''00000041''],
           padding_data = [],
           hex_data = ''00000041 00000041 00000041 00000041'',
           ascii_data = ''...A ...A ...A ...A''\<rparr>]
   \<and> display_data Little 0x1000 example_data Fmt_I True =
     Inr [''0x1010    00000041 00000041 00000041 00000041    ...A ...A ...A ...A'']"
proof (intro conjI)
  show "display_rows Little 0x1000 example_data Fmt_I True =
     Inr [\<lparr>address = 0x1010,
           current_line = example_data,
           data_blocks = [[0x41, 0x00, 0x00, 0x00], [0x41, 0x00, 0x00, 0x00],
                          [0x41, 0x00, 0x00, 0x00], [0x41, 0x00, 0x00, 0x00]],
           valid_data = [''00000041'', ''00000041'', ''00000041'', ''00000041''],
           padding_data = [],
           hex_data = ''00000041 00000041 00000041 00000041'',
           ascii_data = ''...A ...A ...A ...A''\<rparr>]"
    by (simp only: display_rows_eq example_truncate example_rows_Little)
  show "display_data Little 0x1000 example_data Fmt_I True =
     Inr [''0x1010    00000041 00000041 00000041 00000041    ...A ...A ...A ...A'']"
    by (simp only: example_display example_print_Little)
qed

section \<open>Disassembly\<close>

lemma disasm_types_intel64: "disasm_types ''intel64'' = Some (CS_ARCH_X86, CS_MODE_64)"
  by (simp add: disasm_types_def)

lemma disasm_types_intel: "disasm_types ''intel'' = Some (CS_ARCH_X86, CS_MODE_32)"
  by (simp add: disasm_types_def)

lemma disasm_types_arm: "disasm_types ''arm'' = Some (CS_ARCH_ARM, CS_MODE_ARM)"
  by (simp add: disasm_types_def)

lemma demo_lookup: "lookup_layer (demo_shell c) None = Inr (demo_layer c)"
  by (simp add: lookup_layer_def layer_name_or_current_def current_layer_def demo_shell_def
        run_def)

lemma demo_read: "read_data (demo_shell c) 0 1 None = Inr [0x90]"
  by (simp add: read_data_def demo_lookup demo_layer_def)

text \<open>
  Claim C5, as stated: an explicit override decides the decode mode.  On a 64-bit
  Intel layer the override \<open>arm\<close> is ignored and the 64-bit x86 decoder runs.
\<close>

theorem override_counterexample:
  "disassemble (Some demo_disasm) (demo_shell Intel32e) 0 1 None (Some ''arm'') \<noteq>
     Inr (map print_insn (demo_disasm CS_ARCH_ARM CS_MODE_ARM [0x90] 0))
   \<and> disassemble (Some demo_disasm) (demo_shell Intel32e) 0 1 None (Some ''arm'') =
     Inr (map print_insn (demo_disasm CS_ARCH_X86 CS_MODE_64 [0x90] 0))"
  by (simp add: disassemble_def demo_read demo_lookup demo_layer_def isinstance_Intel32e_def
        disasm_types_intel64 demo_disasm_def print_insn_def)

text \<open>
  Claim C5, amended.  When the decoder library is present and the bytes are read, the
  decode mode is the one inferred from the layer whenever the layer is an Intel layer
  (64-bit x86 for \<open>Intel32e\<close>, 32-bit x86 for any other Intel layer), whatever the
  override; the override's mode is used only on a layer that is not an Intel layer;
  without an override nothing is decoded there.
\<close>

theorem disassemble_mode:
  assumes "read_data s offset count layer_name = Inr data"
    and "lookup_layer s layer_name = Inr l"
  shows "(class_of l = Intel32e \<longrightarrow>
            disassemble (Some disasm) s offset count layer_name architecture =
              Inr (map print_insn (disasm CS_ARCH_X86 CS_MODE_64 data offset)))
       \<and> (class_of l = Intel \<longrightarrow>
            disassemble (Some disasm) s offset count layer_name architecture =
              Inr (map print_insn (disasm CS_ARCH_X86 CS_MODE_32 data offset)))
       \<and> (class_of l = Other_layer \<longrightarrow>
            (\<forall>a arch mode. architecture = Some a \<and> disasm_types a = Some (arch, mode) \<longrightarrow>
               disassemble (Some disasm) s offset count layer_name architecture =
                 Inr (map print_insn (disasm arch mode data offset)))
          \<and> (architecture = None \<longrightarrow>
               disassemble (Some disasm) s offset count layer_name architecture = Inr []))"
  using assms
  by (simp add: disassemble_def isinstance_Intel32e_def isinstance_Intel_def
        disasm_types_intel64 disasm_types_intel)

theorem disassemble_mode_witness:
  "disassemble (Some demo_disasm) (demo_shell Intel32e) 0 1 None (Some ''arm'') =
     Inr [''0x0:'' @ [CHR 0x09] @ ''x86'' @ [CHR 0x09] @ ''mode64'']
   \<and> disassemble (Some demo_disasm) (demo_shell Intel) 0 1 None (Some ''arm'') =
     Inr [''0x0:'' @ [CHR 0x09] @ ''x86'' @ [CHR 0x09] @ ''mode32'']
   \<and> disassemble (Some demo_disasm) (demo_shell Other_layer) 0 1 None (Some ''arm'') =
     Inr [''0x0:'' @ [CHR 0x09] @ ''arm'' @ [CHR 0x09] @ ''modearm'']
   \<and> disassemble (Some demo_disasm) (demo_shell Other_layer) 0 1 None None = Inr []"
proof -
  have hd: "hex_digits 0 = ''0''" by code_simp
  have c: "class_of (demo_layer k) = k" for k by (simp add: demo_layer_def)
  note t = disassemble_mode [OF demo_read demo_lookup, of _ demo_disasm]
  from t [of Intel32e "Some ''arm''"] t [of Intel "Some ''arm''"]
    t [of Other_layer "Some ''arm''"] t [of Other_layer None]
  show ?thesis
    by (simp add: c disasm_types_arm demo_disasm_def print_insn_def hd)
qed

text \<open>
  Claim C6, as stated: with no override and a layer that is not recognised, the call
  prints the notice that disassembly is unavailable.  With the decoder library
  present it prints nothing at all.
\<close>

theorem unrecognized_counterexample:
  "disassemble (Some demo_disasm) (demo_shell Other_layer) 0 1 None None \<noteq>
     Inr [capstone_notice]
   \<and> disassemble (Some demo_disasm) (demo_shell Other_layer) 0 1 None None = Inr []"
  by (simp add: disassemble_def demo_read demo_lookup demo_layer_def isinstance_Intel32e_def
        isinstance_Intel_def)

text \<open>
  Claim C6, amended.  With no override and a layer that is not an Intel layer, a call
  whose bytes are read decodes nothing and raises nothing; it prints nothing when the
  decoder library is present, and the notice only when the library is absent.
\<close>

theorem disassemble_unrecognized:
  assumes "read_data s offset count layer_name = Inr data"
    and "lookup_layer s layer_name = Inr l"
    and "class_of l = Other_layer"
  shows "disassemble (Some disasm) s offset count layer_name None = Inr []
       \<and> disassemble None s offset count layer_name None = Inr [capstone_notice]"
  using assms
  by (simp add: disassemble_def isinstance_Intel32e_def isinstance_Intel_def)

theorem disassemble_unrecognized_witness:
  "disassemble (Some demo_disasm) (demo_shell Other_layer) 0 1 None None = Inr []
   \<and> disassemble None (demo_shell Other_layer) 0 1 None None = Inr [capstone_notice]"
proof -
  have "class_of (demo_layer Other_layer) = Other_layer" by (simp add: demo_layer_def)
  with demo_read demo_lookup show ?thesis by (rule disassemble_unrecognized)
qed

text \<open>
  Claim C7.  Without the decoder library, every call whose bytes are read prints the
  notice and nothing else and raises nothing, whatever the offset, the count, the layer
  and the override, an override outside the table included.
\<close>

theorem disassemble_without_capstone:
  "read_data s offset count layer_name = Inr data \<Longrightarrow>
     disassemble None s offset count layer_name architecture = Inr [capstone_notice]"
  by (simp add: disassemble_def)

theorem disassemble_without_capstone_witness:
  "disassemble None (demo_shell Intel32e) 0 1 None (Some ''mips'') = Inr [capstone_notice]
   \<and> disasm_types ''mips'' = None"
  using disassemble_without_capstone [OF demo_read, of Intel32e "Some ''mips''"]
  by (simp add: disasm_types_def)

section \<open>The current layer\<close>

lemma exec_no_change: "\<not> is_change_layer c \<Longrightarrow> fst (exec bo cs s c) = s"
  by (cases c) simp_all

lemma session_no_change:
  "\<forall>c \<in> set cmds. \<not> is_change_layer c \<Longrightarrow> session bo cs s cmds = s"
  by (induction cmds arbitrary: s) (simp_all add: exec_no_change)

lemma current_layer_change:
  "current_layer (change_layer s layer_name) =
     Inr (case layer_name of None \<Rightarrow> primary s | Some n \<Rightarrow> if n = [] then primary s else n)"
  by (simp add: current_layer_def change_layer_def Let_def)

lemma layers_change: "layers (change_layer s layer_name) = layers s"
  by (simp add: change_layer_def Let_def)

lemma primary_change: "primary (change_layer s layer_name) = primary s"
  by (simp add: change_layer_def Let_def)

lemma demo_primary: "primary (demo_shell c) = ''primary''"
  by (simp add: demo_shell_def run_def)

lemma demo_layers: "layers (demo_shell c) = [''primary'' \<mapsto> demo_layer c]"
  by (simp add: demo_shell_def run_def)

text \<open>
  Claim C8, as stated: switching to a layer name makes that name the current layer
  unconditionally.  Switching to the empty name makes the primary layer current.
\<close>

theorem change_layer_counterexample:
  "current_layer (change_layer (demo_shell Intel) (Some '''')) \<noteq> Inr ''''
   \<and> current_layer (change_layer (demo_shell Intel) (Some '''')) = Inr ''primary''"
  by (simp add: current_layer_change demo_primary)

text \<open>
  Claim C8, amended.  Switching to a non-empty layer name makes that name the current
  layer, whether or not such a layer exists; every later read without a layer argument
  reads from that layer, or fails with the layer not found, until the next switch; and
  switching with no name makes the configured primary layer current.
\<close>

theorem change_layer_reads:
  assumes "name \<noteq> []" and "\<forall>c \<in> set cmds. \<not> is_change_layer c"
  shows "current_layer (change_layer s (Some name)) = Inr name
       \<and> read_data (session bo cs (change_layer s (Some name)) cmds) offset count None =
           (case layers s name of None \<Rightarrow> Inl LayerNotFound | Some l \<Rightarrow> read l offset count)
       \<and> current_layer (change_layer s None) = Inr (primary s)"
proof -
  have c: "current_layer (change_layer s (Some name)) = Inr name"
    using assms(1) by (simp add: current_layer_change)
  have "session bo cs (change_layer s (Some name)) cmds = change_layer s (Some name)"
    using assms(2) by (rule session_no_change)
  then have "read_data (session bo cs (change_layer s (Some name)) cmds) offset count None =
           (case layers s name of None \<Rightarrow> Inl LayerNotFound | Some l \<Rightarrow> read l offset count)"
    by (simp add: read_data_def lookup_layer_def layer_name_or_current_def c layers_change
          split: option.split)
  moreover have "current_layer (change_layer s None) = Inr (primary s)"
    by (simp add: current_layer_change)
  ultimately show ?thesis using c by simp
qed

theorem change_layer_reads_witness:
  "current_layer (change_layer (demo_shell Intel) (Some ''missing'')) = Inr ''missing''
   \<and> read_data (session Little None (change_layer (demo_shell Intel) (Some ''missing''))
                 [Display_bytes 0 16 None, Disassemble 0 1 None None]) 0 16 None
       = Inl LayerNotFound
   \<and> read_data (session Little None (change_layer (demo_shell Intel) (Some ''primary''))
                 [Display_bytes 0 16 None, Disassemble 0 1 None None]) 0 2 None
       = Inr [0x90, 0x90]
   \<and> current_layer (change_layer (change_layer (demo_shell Intel) (Some ''missing'')) None)
       = Inr ''primary''"
proof -
  have n: "\<forall>c \<in> set [Display_bytes 0 16 None, Disassemble 0 1 None None]. \<not> is_change_layer c"
    by simp
  have m: "''missing'' \<noteq> []" and p: "''primary'' \<noteq> []" by simp_all
  have r: "replicate 2 (0x90 :: byte) = [0x90, 0x90]" by (simp add: numeral_2_eq_2)
  from change_layer_reads [OF m n, of "demo_shell Intel" Little None 0 16]
    change_layer_reads [OF p n, of "demo_shell Intel" Little None 0 2]
    change_layer_reads [OF m n, of "change_layer (demo_shell Intel) (Some ''missing'')"]
  show ?thesis
    by (simp add: demo_layers demo_primary demo_layer_def r primary_change)
qed

text \<open>
  Claim C10, as stated: the empty string can never become the current layer through
  \<open>change_layer\<close>.  When the configured primary layer's name is itself the empty
  string, switching to the empty string makes the empty string current.
\<close>

theorem change_layer_empty_counterexample:
  "current_layer (change_layer unnamed_primary_shell (Some '''')) = Inr ''''"
  by (simp add: current_layer_change unnamed_primary_shell_def run_def)

text \<open>
  Claim C10, amended.  Switching to the empty string does exactly what switching with
  no name does: the configured primary layer becomes current.  The empty string is the
  current layer after a switch exactly when the primary layer's name is empty and the
  name given is absent or empty.
\<close>

theorem change_layer_empty:
  "change_layer s (Some '''') = change_layer s None
   \<and> current_layer (change_layer s (Some '''')) = Inr (primary s)
   \<and> (current_layer (change_layer s layer_name) = Inr [] \<longleftrightarrow>
        primary s = [] \<and> (layer_name = None \<or> layer_name = Some []))"
proof (intro conjI)
  show "change_layer s (Some '''') = change_layer s None"
    by (simp add: change_layer_def)
  show "current_layer (change_layer s (Some '''')) = Inr (primary s)"
    by (simp add: current_layer_change)
  show "current_layer (change_layer s layer_name) = Inr [] \<longleftrightarrow>
        primary s = [] \<and> (layer_name = None \<or> layer_name = Some [])"
    by (cases layer_name) (auto simp: current_layer_change)
qed

theorem change_layer_empty_witness:
  "change_layer (demo_shell Intel) (Some '''') = change_layer (demo_shell Intel) None
   \<and> current_layer (change_layer (demo_shell Intel) (Some '''')) = Inr ''primary''
   \<and> current_layer (change_layer (demo_shell Intel) (Some '''')) \<noteq> Inr []
   \<and> current_layer (change_layer (demo_shell Intel) (Some ''x'')) \<noteq> Inr []"
  using change_layer_empty [of "demo_shell Intel" "Some ''x''"]
    change_layer_empty [of "demo_shell Intel" "Some ''''"]
  by (simp add: demo_primary current_layer_change)

section \<open>The type inspector\<close>

lemma fold_max_Max:
  "fold (\<lambda>x acc. max (f x) acc) xs (a :: nat) = Max (insert a (f ` set xs))"
proof (induction xs arbitrary: a)
  case Nil
  then show ?case by simp
next
  case (Cons x xs)
  have "Max (insert (max (f x) a) (f ` set xs)) = Max (insert a (insert (f x) (f ` set xs)))"
  proof (cases "set xs = {}")
    case True
    then show ?thesis by (simp add: max.commute)
  next
    case False
    then show ?thesis by (simp add: max.assoc max.commute max.left_commute)
  qed
  with Cons show ?case by simp
qed

lemma longest_fold:
  "fold (\<lambda>(member, relative_offset, type_name) (longest_member, longest_offset).
             (max (length member) longest_member,
              max (length (hex relative_offset)) longest_offset)) ms (a, b) =
     (fold (\<lambda>x acc. max (length (fst x)) acc) ms a,
      fold (\<lambda>x acc. max (length (hex (fst (snd x)))) acc) ms b)"
  by (induction ms arbitrary: a b) (simp_all add: case_prod_beta)

lemma longest_Max:
  "longest ms =
     (Max (insert 0 ((\<lambda>x. length (fst x)) ` set ms)),
      Max (insert 0 ((\<lambda>x. length (hex (fst (snd x)))) ` set ms)))"
  by (simp only: longest_def longest_fold fold_max_Max)

lemma Max_insert_ge:
  "x \<in> set ms \<Longrightarrow> (f x :: nat) \<le> Max (insert 0 (f ` set ms))"
  by (rule Max_ge) auto

lemma print_args7:
  "print_args [a, b, c, d, e, f, g] =
     a @ '' '' @ b @ '' '' @ c @ '' '' @ d @ '' '' @ e @ '' '' @ f @ '' '' @ g"
  by (simp add: print_args_def)

text \<open>
  Claim C9, amended.  \<open>display_type\<close> prints nothing for an object without members
  and otherwise one line per member, in the members' order.  In each line the
  hexadecimal offset is padded on its left (the spaces come before it) to the longest
  offset string, and the member name is padded on its right (the spaces come after
  it) to the longest member name; neither padding is cut short.  So the offsets end in
  the same column, and the names and the type names start in the same column, in
  every line.
\<close>

theorem display_type_layout:
  "display_type [] = [] \<and>
   length (display_type ms) = length ms \<and>
   (\<forall>i < length ms.
      length (hex (fst (snd (ms ! i))))
         \<le> Max (insert 0 ((\<lambda>x. length (hex (fst (snd x)))) ` set ms)) \<and>
      length (fst (ms ! i)) \<le> Max (insert 0 ((\<lambda>x. length (fst x)) ` set ms)) \<and>
      display_type ms ! i =
        replicate (Max (insert 0 ((\<lambda>x. length (hex (fst (snd x)))) ` set ms))
                   - length (hex (fst (snd (ms ! i))))) CHR '' ''
        @ '' '' @ hex (fst (snd (ms ! i)))
        @ [CHR '' '', CHR 0x09, CHR 0x09, CHR '' '']
        @ fst (ms ! i) @ '' ''
        @ replicate (Max (insert 0 ((\<lambda>x. length (fst x)) ` set ms))
                     - length (fst (ms ! i))) CHR '' ''
        @ [CHR '' '', CHR 0x09, CHR 0x09, CHR '' '']
        @ snd (snd (ms ! i)))"
proof (intro conjI allI impI)
  show "display_type [] = []"
    by (simp add: display_type_def longest_def)
  show "length (display_type ms) = length ms"
    by (simp add: display_type_def case_prod_beta)
next
  fix i assume i: "i < length ms"
  then have m: "ms ! i \<in> set ms" by simp
  from m show "length (hex (fst (snd (ms ! i))))
         \<le> Max (insert 0 ((\<lambda>x. length (hex (fst (snd x)))) ` set ms))"
    by (rule Max_insert_ge)
  from m show "length (fst (ms ! i)) \<le> Max (insert 0 ((\<lambda>x. length (fst x)) ` set ms))"
    by (rule Max_insert_ge)
  from i show "display_type ms ! i =
        replicate (Max (insert 0 ((\<lambda>x. length (hex (fst (snd x)))) ` set ms))
                   - length (hex (fst (snd (ms ! i))))) CHR '' ''
        @ '' '' @ hex (fst (snd (ms ! i)))
        @ [CHR '' '', CHR 0x09, CHR 0x09, CHR '' '']
        @ fst (ms ! i) @ '' ''
        @ replicate (Max (insert 0 ((\<lambda>x. length (fst x)) ` set ms))
                     - length (fst (ms ! i))) CHR '' ''
        @ [CHR '' '', CHR 0x09, CHR 0x09, CHR '' '']
        @ snd (snd (ms ! i))"
    by (simp add: display_type_def longest_Max case_prod_beta print_args7)
qed

lemma example_lines:
  "display_type example_members =
     [''    0x0 '' @ [CHR 0x09, CHR 0x09] @ '' a   '' @ [CHR 0x09, CHR 0x09] @ '' int'',
      '' 0x1000 '' @ [CHR 0x09, CHR 0x09] @ '' bb  '' @ [CHR 0x09, CHR 0x09] @ '' char'']"
  by code_simp

text \<open>
  Claim C9, as stated: the offset column is padded on the right.  For the offsets
  \<open>0x0\<close> and \<open>0x1000\<close> the first line does not hold \<open>0x0\<close> followed by three
  spaces, neither at its start nor after the separator: the three spaces come first,
  and the two offsets end, not start, in the same column.
\<close>

theorem display_type_counterexample:
  "take 6 (display_type example_members ! 0) \<noteq> right_padded 6 (hex 0x0)
   \<and> take 6 (drop 1 (display_type example_members ! 0)) \<noteq> right_padded 6 (hex 0x0)
   \<and> take 7 (display_type example_members ! 0) = ''    0x0''
   \<and> take 7 (display_type example_members ! 1) = '' 0x1000''"
proof -
  have "hex 0x0 = ''0x0''" by code_simp
  then show ?thesis by (simp add: example_lines right_padded_def)
qed

theorem display_type_layout_witness:
  "length (display_type example_members) = 2 \<and>
   display_type example_members ! 0 =
     ''    0x0 '' @ [CHR 0x09, CHR 0x09] @ '' a   '' @ [CHR 0x09, CHR 0x09] @ '' int'' \<and>
   display_type example_members ! 1 =
     '' 0x1000 '' @ [CHR 0x09, CHR 0x09] @ '' bb  '' @ [CHR 0x09, CHR 0x09] @ '' char''"
proof -
  have h0: "hex 0 = ''0x0''" and h1: "hex 0x1000 = ''0x1000''" by code_simp+
  have l: "length example_members = 2" by (simp add: example_members_def)
  have e0: "example_members ! 0 = (''a'', 0, ''int'')"
    and e1: "example_members ! 1 = (''bb'', 0x1000, ''char'')"
    by (simp_all add: example_members_def)
  have s: "set example_members = {(''a'', 0, ''int''), (''bb'', 0x1000, ''char'')}"
    by (auto simp: example_members_def)
  from display_type_layout [of example_members]
  have len: "length (display_type example_members) = length example_members"
    and al: "\<forall>i < length example_members.
      display_type example_members ! i =
        replicate (Max (insert 0 ((\<lambda>x. length (hex (fst (snd x)))) ` set example_members))
                   - length (hex (fst (snd (example_members ! i))))) CHR '' ''
        @ '' '' @ hex (fst (snd (example_members ! i)))
        @ [CHR '' '', CHR 0x09, CHR 0x09, CHR '' '']
        @ fst (example_members ! i) @ '' ''
        @ replicate (Max (insert 0 ((\<lambda>x. length (fst x)) ` set example_members))
                     - length (fst (example_members ! i))) CHR '' ''
        @ [CHR '' '', CHR 0x09, CHR 0x09, CHR '' '']
        @ snd (snd (example_members ! i))"
    by blast+
  have M: "Max (insert 0 ((\<lambda>x. length (hex (fst (snd x)))) ` set example_members)) = 6"
    and N: "Max (insert 0 ((\<lambda>x. length (fst x)) ` set example_members)) = 2"
    by (simp_all add: s h0 h1)
  have "0 < length example_members" and "1 < length example_members"
    by (simp_all add: l)
  note a0 = al [rule_format, OF this(1)] and a1 = al [rule_format, OF this(2)]
  have "display_type example_members ! 0 =
     ''    0x0 '' @ [CHR 0x09, CHR 0x09] @ '' a   '' @ [CHR 0x09, CHR 0x09] @ '' int''"
    using a0 unfolding M N e0 by (simp add: h0 eval_nat_numeral)
  moreover have "display_type example_members ! 1 =
     '' 0x1000 '' @ [CHR 0x09, CHR 0x09] @ '' bb  '' @ [CHR 0x09, CHR 0x09] @ '' char''"
    using a1 unfolding M N e1 by (simp add: h1 eval_nat_numeral)
  ultimately show ?thesis using len l by simp
qed

end
